theory Spec2Isabelle
  imports Complex_Main
begin

section \<open>Values of the population column\<close>

text \<open>
  The notebook applies \<^verbatim>\<open>classify_population\<close> to the entries of the numeric column
  \<^verbatim>\<open>pop_1km['POP']\<close>. An entry is a Python number: an integer or a finite float
  (both embedded in the reals by \<open>Fin\<close>; Python compares a float with the integer
  literals 50 and 250 exactly), one of the two infinities, or NaN, which pandas also uses
  for a missing entry. Every ordering comparison with NaN is false.
\<close>

datatype pyfloat = Fin real | PosInf | NegInf | NaN

text \<open>\<^verbatim>\<open>x < c\<close> for a number \<open>x\<close> and a finite constant \<open>c\<close>.\<close>

fun py_lt :: "pyfloat \<Rightarrow> real \<Rightarrow> bool" where
  "py_lt (Fin a) c = (a < c)"
| "py_lt PosInf c = False"
| "py_lt NegInf c = True"
| "py_lt NaN c = False"

text \<open>\<^verbatim>\<open>c <= x\<close> for a finite constant \<open>c\<close> and a number \<open>x\<close>.\<close>

fun py_le :: "real \<Rightarrow> pyfloat \<Rightarrow> bool" where
  "py_le c (Fin a) = (c \<le> a)"
| "py_le c PosInf = True"
| "py_le c NegInf = False"
| "py_le c NaN = False"

section \<open>The custom classifier of the notebook\<close>

text \<open>
  \<^verbatim>\<open>
  def classify_population(POP):
      if POP < 50:
          return 'Low'
      elif 50 <= POP < 250:
          return 'Medium'
      else:
          return 'High'
  \<close>
  The chained comparison \<^verbatim>\<open>50 <= POP < 250\<close> is \<^verbatim>\<open>50 <= POP and POP < 250\<close>.
\<close>

definition classify_population :: "pyfloat \<Rightarrow> string" where
  "classify_population pop =
     (if py_lt pop 50 then ''Low''
      else if py_le 50 pop \<and> py_lt pop 250 then ''Medium''
      else ''High'')"

section \<open>Classification schemes\<close>

text \<open>
  Modelled from the spec: the classification scheme and the operation \<open>classify\<close> over an
  arbitrary scheme are not in the notebooks (there a scheme is applied by the third-party
  classifier). A scheme is an ordered sequence of break-points together with the labels of
  the bins they separate: \<open>k - 1\<close> break-points for \<open>k\<close> labels.
\<close>

record scheme =
  breaks :: "real list"
  labels :: "string list"

text \<open>
  Modelled from the spec: the invariant of a scheme. The break-points are strictly
  increasing and there is one label per bin.
\<close>

definition scheme_ok :: "scheme \<Rightarrow> bool" where
  "scheme_ok s =
     (sorted_wrt (<) (breaks s) \<and> length (labels s) = Suc (length (breaks s)))"

text \<open>
  Modelled from the spec: the bin of a value is found as the if/elif cascade of the
  notebook finds it, by the first break-point that lies strictly above the value; a value
  with no break-point above it lands in the last bin.
\<close>

fun bin_index :: "real \<Rightarrow> real list \<Rightarrow> nat" where
  "bin_index v [] = 0"
| "bin_index v (b # bs) = (if v < b then 0 else Suc (bin_index v bs))"

text \<open>
  Modelled from the spec: \<open>classify\<close> returns the label of the bin of the value; \<open>None\<close>
  stands for "no match" (the scheme has no label for that bin).
\<close>

definition classify :: "real \<Rightarrow> scheme \<Rightarrow> string option" where
  "classify v s =
     (let i = bin_index v (breaks s)
      in if i < length (labels s) then Some (labels s ! i) else None)"

text \<open>
  Modelled from the spec: the contiguous half-open intervals of a scheme. Bin \<open>i\<close> holds
  the values from break-point \<open>i - 1\<close> (included) up to break-point \<open>i\<close> (excluded);
  the lowest bin has no lower end and the highest bin no upper end.
\<close>

definition in_bin :: "real list \<Rightarrow> nat \<Rightarrow> real \<Rightarrow> bool" where
  "in_bin bs i v =
     (i \<le> length bs \<and> (i = 0 \<or> bs ! (i - 1) \<le> v) \<and> (i = length bs \<or> v < bs ! i))"

text \<open>
  Modelled from the spec: the natural ordering of the labels of a scheme is the order in
  which the scheme lists them; \<open>label_pos\<close> is the position of a label in that list.
\<close>

definition label_pos :: "string list \<Rightarrow> string \<Rightarrow> nat" where
  "label_pos ls l = length (takeWhile (\<lambda>x. x \<noteq> l) ls)"

text \<open>The scheme that \<open>classify_population\<close> hard-codes: its two thresholds and three labels.\<close>

definition population_scheme :: scheme where
  "population_scheme = \<lparr>breaks = [50, 250], labels = [''Low'', ''Medium'', ''High'']\<rparr>"

section \<open>Rule tables\<close>

text \<open>
  Modelled from the spec: \<open>custom_classify\<close> is not in the notebooks, which only have the
  fixed cascade above. It takes a value, an ordered table of (threshold, label) rules and
  an optional default label. The rules are tried in order; a rule matches when the value
  is below its threshold; the first match gives the label. With no match the default is
  returned, and without a default the operation fails with \<open>UnclassifiableValueError\<close>.
\<close>

datatype error = UnclassifiableValueError

fun custom_classify ::
  "pyfloat \<Rightarrow> (real \<times> string) list \<Rightarrow> string option \<Rightarrow> error + string" where
  "custom_classify v [] d =
     (case d of None \<Rightarrow> Inl UnclassifiableValueError | Some l \<Rightarrow> Inr l)"
| "custom_classify v ((t, l) # rs) d =
     (if py_lt v t then Inr l else custom_classify v rs d)"


section \<open>Bins of a scheme\<close>

lemma bin_index_le: "bin_index v bs \<le> length bs"
  by (induction bs) auto

lemma bin_index_lower: "0 < bin_index v bs \<Longrightarrow> bs ! (bin_index v bs - 1) \<le> v"
proof (induction bs)
  case Nil
  then show ?case by simp
next
  case (Cons b bs)
  show ?case
  proof (cases "bin_index v bs")
    case 0
    with Cons.prems show ?thesis by (simp split: if_splits)
  next
    case (Suc n)
    with Cons show ?thesis by (simp split: if_splits)
  qed
qed

lemma bin_index_upper: "bin_index v bs < length bs \<Longrightarrow> v < bs ! bin_index v bs"
  by (induction bs) auto

lemma bin_index_in_bin: "in_bin bs (bin_index v bs) v"
  using bin_index_le [of v bs] bin_index_lower [of v bs] bin_index_upper [of v bs]
  unfolding in_bin_def by (cases "bin_index v bs = 0"; cases "bin_index v bs = length bs") auto

lemma in_bin_unique:
  assumes srt: "sorted_wrt (<) bs" and ib: "in_bin bs i v"
  shows "i = bin_index v bs"
proof (rule ccontr)
  let ?j = "bin_index v bs"
  assume ne: "i \<noteq> ?j"
  have jb: "in_bin bs ?j v" by (rule bin_index_in_bin)
  have mono: "\<And>m n. m \<le> n \<Longrightarrow> n < length bs \<Longrightarrow> bs ! m \<le> bs ! n"
  proof -
    fix m n :: nat assume "m \<le> n" "n < length bs"
    then show "bs ! m \<le> bs ! n"
      using srt sorted_wrt_nth_less [of "(<)" bs m n] by (cases "m = n") auto
  qed
  show False
  proof (cases "i < ?j")
    case True
    then have "i < length bs" "0 < ?j" "?j - 1 < length bs" "i \<le> ?j - 1"
      using jb by (auto simp: in_bin_def)
    then have "v < bs ! i" "bs ! i \<le> bs ! (?j - 1)" "bs ! (?j - 1) \<le> v"
      using ib jb mono [of i "?j - 1"] by (auto simp: in_bin_def)
    then show False by simp
  next
    case False
    with ne have lt: "?j < i" by simp
    then have "?j < length bs" "0 < i" "i - 1 < length bs" "?j \<le> i - 1"
      using ib by (auto simp: in_bin_def)
    then have "v < bs ! ?j" "bs ! ?j \<le> bs ! (i - 1)" "bs ! (i - 1) \<le> v"
      using ib jb mono [of ?j "i - 1"] by (auto simp: in_bin_def)
    then show False by simp
  qed
qed

lemma bin_index_mono: "a \<le> b \<Longrightarrow> bin_index a bs \<le> bin_index b bs"
  by (induction bs) auto

lemma bin_index_below_first: "bs \<noteq> [] \<Longrightarrow> v < hd bs \<Longrightarrow> bin_index v bs = 0"
  by (cases bs) auto

lemma bin_index_above_all: "\<forall>b \<in> set bs. b \<le> v \<Longrightarrow> bin_index v bs = length bs"
  by (induction bs) auto

lemma sorted_le_last:
  assumes "sorted_wrt (<) bs" "b \<in> set bs"
  shows "b \<le> last (bs::real list)"
proof -
  from assms(2) obtain i where i: "i < length bs" "bs ! i = b" by (auto simp: in_set_conv_nth)
  then have ne: "bs \<noteq> []" by auto
  show ?thesis
  proof (cases "i = length bs - 1")
    case True
    with i ne show ?thesis by (simp add: last_conv_nth)
  next
    case False
    with i have "i < length bs - 1" by simp
    then have "bs ! i < bs ! (length bs - 1)"
      using assms(1) ne sorted_wrt_nth_less [of "(<)" bs i "length bs - 1"] by simp
    with i ne show ?thesis by (simp add: last_conv_nth)
  qed
qed

lemma bin_index_above_last:
  "sorted_wrt (<) bs \<Longrightarrow> bs \<noteq> [] \<Longrightarrow> last bs \<le> v \<Longrightarrow> bin_index v bs = length bs"
  by (rule bin_index_above_all) (auto dest: sorted_le_last)

lemma classify_ok:
  "scheme_ok s \<Longrightarrow> classify v s = Some (labels s ! bin_index v (breaks s))"
  using bin_index_le [of v "breaks s"] by (simp add: classify_def scheme_ok_def Let_def)

lemma label_pos_nth: "distinct ls \<Longrightarrow> i < length ls \<Longrightarrow> label_pos ls (ls ! i) = i"
proof (induction ls arbitrary: i)
  case Nil
  then show ?case by simp
next
  case (Cons x xs)
  show ?case
  proof (cases i)
    case 0
    then show ?thesis by (simp add: label_pos_def)
  next
    case (Suc n)
    with Cons.prems have "x \<noteq> xs ! n" "n < length xs" "distinct xs" by auto
    with Cons.IH [of n] Suc show ?thesis by (simp add: label_pos_def)
  qed
qed

lemma population_scheme_ok: "scheme_ok population_scheme"
  by (simp add: scheme_ok_def population_scheme_def)

lemma classify_population_scheme:
  "classify r population_scheme = Some (classify_population (Fin r))"
  by (simp add: classify_def population_scheme_def classify_population_def Let_def)

lemma custom_classify_find:
  "custom_classify v rs d =
     (case List.find (\<lambda>r. py_lt v (fst r)) rs of
        Some r \<Rightarrow> Inr (snd r)
      | None \<Rightarrow> (case d of None \<Rightarrow> Inl UnclassifiableValueError | Some l \<Rightarrow> Inr l))"
  by (induction v rs d rule: custom_classify.induct) auto

lemma custom_classify_error:
  "(custom_classify v rs d = Inl UnclassifiableValueError) = ((\<forall>r \<in> set rs. \<not> py_lt v (fst r)) \<and> d = None)"
  by (induction v rs d rule: custom_classify.induct) (auto split: option.splits)

lemma custom_classify_population:
  "custom_classify x [(50, ''Low''), (250, ''Medium'')] (Some ''High'') = Inr (classify_population x)"
  by (cases x) (auto simp: classify_population_def)


section \<open>Properties of the classifiers\<close>

text \<open>
  Claim C1. With the break-points 50 and 250 and the labels Low, Medium, High, the
  classifier gives Low at 10, Medium at 50, Medium at 249 and High at 1000; the
  break-point 50 itself belongs to the Medium bin (the lower bound of a bin is inclusive).
\<close>

theorem classify_population_examples:
  "classify_population (Fin 10) = ''Low'' \<and>
   classify_population (Fin 50) = ''Medium'' \<and>
   classify_population (Fin 249) = ''Medium'' \<and>
   classify_population (Fin 1000) = ''High''"
  by (simp add: classify_population_def)

text \<open>
  Claim C2. \<open>custom_classify\<close> tries the rules of its table in order and returns the label
  of the first rule whose threshold lies above the value (\<open>List.find\<close> is the first element
  that satisfies a predicate); when no rule matches it returns the default, and it fails
  with \<open>UnclassifiableValueError\<close> exactly when no rule matches and there is no default.
  It is a function of its arguments only. On the table (50, Low), (250, Medium) with the
  default High it agrees with \<open>classify_population\<close> on every number, NaN and the
  infinities included, so that \<open>classify_population\<close> never fails.
\<close>

theorem custom_classify_first_match:
  "custom_classify v rs d =
     (case List.find (\<lambda>r. py_lt v (fst r)) rs of
        Some r \<Rightarrow> Inr (snd r)
      | None \<Rightarrow> (case d of None \<Rightarrow> Inl UnclassifiableValueError | Some l \<Rightarrow> Inr l)) \<and>
   (custom_classify v rs d = Inl UnclassifiableValueError) =
     ((\<forall>r \<in> set rs. \<not> py_lt v (fst r)) \<and> d = None) \<and>
   custom_classify x [(50, ''Low''), (250, ''Medium'')] (Some ''High'') =
     Inr (classify_population x)"
  using custom_classify_find [of v rs d] custom_classify_error [of v rs d]
    custom_classify_population [of x]
  by simp

theorem custom_classify_first_match_witness:
  "custom_classify (Fin 300) [(50, ''Low''), (250, ''Medium'')] None =
     Inl UnclassifiableValueError \<and>
   custom_classify (Fin 100) [(250, ''Medium''), (50, ''Low'')] None = Inr ''Medium'' \<and>
   custom_classify (Fin 100) [(50, ''Low''), (250, ''Medium'')] (Some ''High'') =
     Inr ''Medium'' \<and>
   classify_population (Fin 100) = ''Medium''"
  using custom_classify_first_match
          [of "Fin 300" "[(50, ''Low''), (250, ''Medium'')]" None "Fin 100"]
        custom_classify_first_match
          [of "Fin 100" "[(250, ''Medium''), (50, ''Low'')]" None "Fin 100"]
  by (simp add: classify_population_def)

text \<open>
  Claim C3. Under a well-formed scheme every real value lies in exactly one bin, and
  \<open>classify\<close> returns the label of that bin: it never answers "no match". The scheme of
  \<open>classify_population\<close> is well-formed, \<open>classify_population\<close> is \<open>classify\<close> under that
  scheme on every real, and on every input number it returns one of the scheme's labels.
\<close>

theorem classify_total:
  assumes "scheme_ok s"
  shows "(\<exists>!i. in_bin (breaks s) i v) \<and>
         (\<forall>i. in_bin (breaks s) i v \<longrightarrow> classify v s = Some (labels s ! i)) \<and>
         (\<exists>l. classify v s = Some l \<and> l \<in> set (labels s)) \<and>
         scheme_ok population_scheme \<and>
         classify r population_scheme = Some (classify_population (Fin r)) \<and>
         classify_population x \<in> set (labels population_scheme)"
proof -
  let ?j = "bin_index v (breaks s)"
  from assms have srt: "sorted_wrt (<) (breaks s)"
    and len: "length (labels s) = Suc (length (breaks s))"
    by (simp_all add: scheme_ok_def)
  have uniq: "\<And>i. in_bin (breaks s) i v \<Longrightarrow> i = ?j"
    using srt by (rule in_bin_unique)
  have ex1: "\<exists>!i. in_bin (breaks s) i v"
    using bin_index_in_bin [of "breaks s" v] uniq by blast
  have lab: "\<forall>i. in_bin (breaks s) i v \<longrightarrow> classify v s = Some (labels s ! i)"
    using uniq classify_ok [OF assms, of v] by auto
  have "?j < length (labels s)"
    using bin_index_le [of v "breaks s"] len by simp
  then have mem: "\<exists>l. classify v s = Some l \<and> l \<in> set (labels s)"
    using classify_ok [OF assms, of v] by simp
  have conc: "classify_population x \<in> set (labels population_scheme)"
    by (simp add: classify_population_def population_scheme_def)
  from ex1 lab mem conc population_scheme_ok classify_population_scheme [of r]
  show ?thesis by blast
qed

theorem classify_total_witness:
  "scheme_ok population_scheme \<and>
   in_bin (breaks population_scheme) 1 50 \<and>
   classify 50 population_scheme = Some ''Medium'' \<and>
   classify_population (Fin 50) = ''Medium''"
  using classify_total [OF population_scheme_ok, of 50 50 "Fin 50"]
  by (simp add: population_scheme_def in_bin_def classify_population_def)

text \<open>
  Claim C4. Under a well-formed scheme \<open>classify\<close> returns the label of the interval that
  contains the value; a value below the first break-point gets the first label and a
  value at or above the last break-point gets the last label, so no value is rejected.
  For \<open>classify_population\<close>: every value below 50, however negative, is Low, and every
  value from 250 upwards is High.
\<close>

theorem classify_clamps:
  assumes "scheme_ok s"
  shows "in_bin (breaks s) (bin_index v (breaks s)) v \<and>
         classify v s = Some (labels s ! bin_index v (breaks s)) \<and>
         (breaks s \<noteq> [] \<and> v < hd (breaks s) \<longrightarrow> classify v s = Some (hd (labels s))) \<and>
         (breaks s \<noteq> [] \<and> last (breaks s) \<le> v \<longrightarrow> classify v s = Some (last (labels s))) \<and>
         (r < 50 \<longrightarrow> classify_population (Fin r) = ''Low'') \<and>
         (250 \<le> r \<longrightarrow> classify_population (Fin r) = ''High'') \<and>
         classify_population NegInf = ''Low'' \<and>
         classify_population PosInf = ''High''"
proof -
  from assms have srt: "sorted_wrt (<) (breaks s)"
    and len: "length (labels s) = Suc (length (breaks s))"
    by (simp_all add: scheme_ok_def)
  from len have ne: "labels s \<noteq> []" by auto
  have cl: "classify v s = Some (labels s ! bin_index v (breaks s))"
    using assms by (rule classify_ok)
  have lo: "breaks s \<noteq> [] \<and> v < hd (breaks s) \<longrightarrow> classify v s = Some (hd (labels s))"
    using cl ne by (auto simp: bin_index_below_first hd_conv_nth)
  have hi: "breaks s \<noteq> [] \<and> last (breaks s) \<le> v \<longrightarrow> classify v s = Some (last (labels s))"
    using cl ne len srt by (auto simp: bin_index_above_last last_conv_nth)
  have c1: "r < 50 \<longrightarrow> classify_population (Fin r) = ''Low''"
    by (simp add: classify_population_def)
  have c2: "250 \<le> r \<longrightarrow> classify_population (Fin r) = ''High''"
    by (simp add: classify_population_def)
  have c3: "classify_population NegInf = ''Low''" "classify_population PosInf = ''High''"
    by (simp_all add: classify_population_def)
  from bin_index_in_bin [of "breaks s" v] cl lo hi c1 c2 c3 show ?thesis by blast
qed

theorem classify_clamps_witness:
  "scheme_ok population_scheme \<and>
   (-1000000 :: real) < hd (breaks population_scheme) \<and>
   classify (-1000000) population_scheme = Some ''Low'' \<and>
   last (breaks population_scheme) \<le> (1000000 :: real) \<and>
   classify 1000000 population_scheme = Some ''High'' \<and>
   (-7 :: real) < 50 \<and> classify_population (Fin (-7)) = ''Low'' \<and>
   (250 :: real) \<le> 250 \<and> classify_population (Fin 250) = ''High''"
  using classify_clamps [OF population_scheme_ok, of "-1000000" "-7"]
        classify_clamps [OF population_scheme_ok, of 1000000 250]
  by (simp add: population_scheme_def scheme_ok_def)

text \<open>
  Claim C5. If \<open>a < b\<close> then the bin of \<open>a\<close> is not after the bin of \<open>b\<close>; for a
  well-formed scheme with pairwise distinct labels the label of \<open>a\<close> is therefore not
  after the label of \<open>b\<close> in the scheme's list of labels. For \<open>classify_population\<close> the
  order is Low, Medium, High. The statement holds for all reals, not only for those
  strictly inside the domain.
\<close>

theorem classify_monotone:
  assumes "a < b"
  shows "bin_index a (breaks s) \<le> bin_index b (breaks s) \<and>
         (scheme_ok s \<and> distinct (labels s) \<longrightarrow>
            (\<exists>la lb. classify a s = Some la \<and> classify b s = Some lb \<and>
               label_pos (labels s) la \<le> label_pos (labels s) lb)) \<and>
         label_pos (labels population_scheme) (classify_population (Fin a))
           \<le> label_pos (labels population_scheme) (classify_population (Fin b))"
proof -
  have gen: "\<exists>la lb. classify a t = Some la \<and> classify b t = Some lb \<and>
               label_pos (labels t) la \<le> label_pos (labels t) lb"
    if ok: "scheme_ok t" and dist: "distinct (labels t)" for t
  proof -
    let ?i = "bin_index a (breaks t)" and ?j = "bin_index b (breaks t)"
    from ok have len: "length (labels t) = Suc (length (breaks t))"
      by (simp add: scheme_ok_def)
    have ij: "?i \<le> ?j" using assms by (simp add: bin_index_mono)
    have "?i < length (labels t)" "?j < length (labels t)"
      using bin_index_le [of a "breaks t"] bin_index_le [of b "breaks t"] len by simp_all
    then have "label_pos (labels t) (labels t ! ?i) = ?i"
      "label_pos (labels t) (labels t ! ?j) = ?j"
      using dist by (simp_all add: label_pos_nth)
    with ij classify_ok [OF ok, of a] classify_ok [OF ok, of b] show ?thesis by simp
  qed
  have "distinct (labels population_scheme)"
    by (simp add: population_scheme_def)
  from gen [OF population_scheme_ok this]
  have conc: "label_pos (labels population_scheme) (classify_population (Fin a))
           \<le> label_pos (labels population_scheme) (classify_population (Fin b))"
    by (simp add: classify_population_scheme)
  have "bin_index a (breaks s) \<le> bin_index b (breaks s)"
    using assms by (simp add: bin_index_mono)
  with gen [of s] conc show ?thesis by blast
qed

theorem classify_monotone_witness:
  "(10 :: real) < 100 \<and>
   scheme_ok population_scheme \<and> distinct (labels population_scheme) \<and>
   classify 10 population_scheme = Some ''Low'' \<and>
   classify 100 population_scheme = Some ''Medium'' \<and>
   label_pos (labels population_scheme) ''Low'' = 0 \<and>
   label_pos (labels population_scheme) ''Medium'' = 1 \<and>
   label_pos (labels population_scheme) ''High'' = 2 \<and>
   label_pos (labels population_scheme) (classify_population (Fin 10))
     \<le> label_pos (labels population_scheme) (classify_population (Fin 100))"
proof -
  have h: "(10 :: real) < 100" by simp
  show ?thesis
    using h classify_monotone [OF h, of population_scheme] population_scheme_ok
    by (simp add: population_scheme_def classify_def label_pos_def)
qed

text \<open>
  Claim C8. At the upper break-point 250 the classifier gives High: the Medium bin is the
  half-open interval from 50 (included) to 250 (excluded).
\<close>

theorem classify_population_upper_boundary:
  "classify_population (Fin 250) = ''High'' \<and>
   (classify_population (Fin r) = ''Medium'') = (50 \<le> r \<and> r < 250)"
  by (simp add: classify_population_def)

theorem classify_population_upper_boundary_witness:
  "classify_population (Fin 100) = ''Medium'' \<and> (50 :: real) \<le> 100 \<and> (100 :: real) < 250 \<and>
   classify_population (Fin 250) = ''High''"
  using classify_population_upper_boundary [of 100] by simp

text \<open>
  Claim C9. On NaN both comparisons are false, so the classifier falls through to the
  last branch and returns High; no branch of the function raises.
\<close>

theorem classify_population_nan:
  "py_lt NaN 50 = False \<and> (py_le 50 NaN \<and> py_lt NaN 250) = False \<and>
   classify_population NaN = ''High''"
  by (simp add: classify_population_def)

text \<open>
  Claim C10. Whatever the input number, the result is one of the three labels Low,
  Medium, High.
\<close>

theorem classify_population_range:
  "classify_population x \<in> {''Low'', ''Medium'', ''High''}"
  by (simp add: classify_population_def)

end
